theory Spec2Isabelle
  imports Main "HOL-Library.Word"
begin

section \<open>Account storage utilities (go/internal/accountutils/utils.go)\<close>

text \<open>
  A shallow embedding of package \<open>accountutils\<close>. Every Go function of the file is a HOL
  function of the same name. What the Go code obtains from outside the package (the
  operating system, the SQL drivers, the keystore capability, the random source, the
  clock, the protobuf decoder) is an explicit argument: a record of operations over an
  abstract world state \<open>'s\<close>, or the outcome of the call. A Go result \<open>(v, err)\<close> is a
  value of \<open>error + 'a\<close>, \<open>Inl\<close> carrying the error.
\<close>

subsection \<open>Bytes, constants\<close>

type_synonym byte = "8 word"

definition InMemoryDir :: string where
  "InMemoryDir = '':memory:''"

definition DefaultPushKeyFilename :: string where
  "DefaultPushKeyFilename = ''push.key''"

definition AccountMetafileName :: string where
  "AccountMetafileName = ''account_meta''"

definition AccountNetConfFileName :: string where
  "AccountNetConfFileName = ''account_net_conf''"

definition MessengerDatabaseFilename :: string where
  "MessengerDatabaseFilename = ''messenger.sqlite''"

definition ReplicationDatabaseFilename :: string where
  "ReplicationDatabaseFilename = ''replication.sqlite''"

definition StorageKeyName :: string where
  "StorageKeyName = ''storage''"

text \<open>
  \<open>cryptoutil.KeySize\<close> is declared in another package. The file assigns the result of
  \<open>box.GenerateKey\<close>, a pair of \<open>*[32]byte\<close>, to variables of type
  \<open>*[cryptoutil.KeySize]byte\<close>, which Go accepts only when the constant is 32.
\<close>

definition KeySize :: nat where
  "KeySize = 32"

subsection \<open>Errors\<close>

text \<open>The codes of package \<open>errcode\<close> that the file uses.\<close>

datatype errcode =
    TODO
  | ErrInternal
  | ErrInvalidInput
  | ErrDeserialization
  | ErrDBWrite
  | ErrDBOpen
  | ErrCryptoKeyGeneration
  | ErrBertyAccountFSError
  | ErrBertyAccountDataNotFound
  | ErrKeystoreGet
  | ErrKeystorePut
  | ErrPushUnableToDecrypt

text \<open>
  Error values. \<open>ErrNotExist\<close> is the error of an operating-system call on a path that
  does not exist; \<open>ExternalError\<close> is any other error of an external call.
  \<open>IndexOutOfRange i n\<close> is not a returned error: it stands for the run-time panic of an
  index expression \<open>a[i]\<close> on a slice of length \<open>n \<le> i\<close>, which unwinds the caller.
\<close>

datatype error =
    ErrNotExist
  | ExternalError string
  | ErrorString string
  | Errorf string error
  | ErrCode errcode
  | Wrap errcode error
  | MultiErr "error list"
  | IndexOutOfRange nat nat

fun os_IsNotExist :: "error \<Rightarrow> bool" where
  "os_IsNotExist ErrNotExist = True"
| "os_IsNotExist _ = False"

text \<open>
  \<open>multierr.Append\<close> of two non-nil errors: one combined error listing the errors of
  both, an argument that is itself a combined error contributing its members.
\<close>

fun multierr_Errors :: "error \<Rightarrow> error list" where
  "multierr_Errors (MultiErr es) = es"
| "multierr_Errors e = [e]"

definition multierr_Append :: "error \<Rightarrow> error \<Rightarrow> error" where
  "multierr_Append left right = MultiErr (multierr_Errors left @ multierr_Errors right)"

subsection \<open>Logging\<close>

datatype zap_Field = zap_Error error | zap_String string string

datatype log_entry = LogWarn string "zap_Field list"

text \<open>A \<open>*zap.Logger\<close> that is not nil: the no-op logger of \<open>zap.NewNop()\<close>, or a live one.\<close>

datatype zap_Logger = NopLogger | LiveLogger

fun zap_Warn :: "zap_Logger \<Rightarrow> string \<Rightarrow> zap_Field list \<Rightarrow> log_entry list" where
  "zap_Warn NopLogger msg fields = []"
| "zap_Warn LiveLogger msg fields = [LogWarn msg fields]"

subsection \<open>The keystore capability and \<open>GetOrCreateStorageKey\<close>\<close>

text \<open>
  \<open>sysutil.NativeKeystore\<close> is an interface with \<open>Get(name)\<close> and \<open>Put(name, data)\<close>. An
  implementation is a pair of functions over its own state \<open>'k\<close>; each call returns its
  result and the state it leaves.
\<close>

record 'k NativeKeystore =
  Get :: "'k \<Rightarrow> string \<Rightarrow> (error + byte list) \<times> 'k"
  Put :: "'k \<Rightarrow> string \<Rightarrow> byte list \<Rightarrow> error option \<times> 'k"

datatype ks_call = CallGet string | CallPut string "byte list"

text \<open>
  \<open>GetOrCreateStorageKey ks crand_Read k\<close>: \<open>crand_Read n\<close> is the outcome of filling a
  fresh \<open>n\<close>-byte slice from \<open>crypto/rand\<close>. The result comes with the keystore state left
  behind and the calls made on the capability, in order.
\<close>

definition GetOrCreateStorageKey ::
  "'k NativeKeystore \<Rightarrow> (nat \<Rightarrow> error + byte list) \<Rightarrow> 'k
     \<Rightarrow> (error + byte list) \<times> 'k \<times> ks_call list" where
  "GetOrCreateStorageKey ks crand_Read k =
     (case Get ks k StorageKeyName of
        (Inr key, k1) \<Rightarrow> (Inr key, k1, [CallGet StorageKeyName])
      | (Inl getErr, k1) \<Rightarrow>
          (case crand_Read KeySize of
             Inl err \<Rightarrow>
               (Inl (Wrap ErrCryptoKeyGeneration err), k1, [CallGet StorageKeyName])
           | Inr keyData \<Rightarrow>
               (case Put ks k1 StorageKeyName keyData of
                  (Some err, k2) \<Rightarrow>
                    (Inl (Wrap ErrKeystoreGet (multierr_Append getErr err)), k2,
                     [CallGet StorageKeyName, CallPut StorageKeyName keyData])
                | (None, k2) \<Rightarrow>
                    (case Get ks k2 StorageKeyName of
                       (Inl err, k3) \<Rightarrow>
                         (Inl (Wrap ErrKeystorePut (multierr_Append getErr err)), k3,
                          [CallGet StorageKeyName, CallPut StorageKeyName keyData,
                           CallGet StorageKeyName])
                     | (Inr key, k3) \<Rightarrow>
                         (Inr key, k3,
                          [CallGet StorageKeyName, CallPut StorageKeyName keyData,
                           CallGet StorageKeyName])))))"

text \<open>
  Keystores for running the function: an association list, and variants that refuse the
  \<open>Put\<close>, accept it and forget it, or seal what they store behind a leading byte.
\<close>

definition map_keystore :: "(string \<times> byte list) list NativeKeystore" where
  "map_keystore =
     \<lparr>Get = (\<lambda>k name. (case map_of k name of
                           None \<Rightarrow> Inl (ExternalError ''no such entry'')
                         | Some v \<Rightarrow> Inr v, k)),
      Put = (\<lambda>k name data. (None, (name, data) # k))\<rparr>"

definition readonly_keystore :: "(string \<times> byte list) list NativeKeystore" where
  "readonly_keystore =
     map_keystore\<lparr>Put := (\<lambda>k name data. (Some (ExternalError ''read-only''), k))\<rparr>"

definition forgetful_keystore :: "(string \<times> byte list) list NativeKeystore" where
  "forgetful_keystore = map_keystore\<lparr>Put := (\<lambda>k name data. (None, k))\<rparr>"

definition sealing_keystore :: "(string \<times> byte list) list NativeKeystore" where
  "sealing_keystore =
     map_keystore\<lparr>Put := (\<lambda>k name data. (None, (name, 1 # data) # k))\<rparr>"

subsection \<open>The outside world of the file-system and database functions\<close>

datatype sql_DB = SqlDB string string

datatype datastore =
    MapDatastore
  | SqlDatastore sql_DB string
  | MutexWrap datastore

record gorm_Config =
  Logger :: "zap_Logger \<times> string"
  DisableForeignKeyConstraintWhenMigrating :: bool

datatype gorm_DB = GormDB string

text \<open>
  The external calls of the file, as operations on a world state \<open>'s\<close>. A read-only call
  returns its result; a call that can change the world returns its error (if any) and the
  world it leaves, also when it fails. \<open>ReadDir\<close> lists a directory as pairs of
  \<open>Name()\<close> and \<open>IsDir()\<close>. \<open>sql_Open\<close>, \<open>gorm_Open\<close> stand for \<open>sql.Open\<close> and
  \<open>gorm.Open(sqlite.Open(dsn), cfg)\<close>; \<open>IsEncrypted\<close> for \<open>sqlite3.IsEncrypted\<close>. The
  path functions of \<open>path\<close> and \<open>path/filepath\<close> are pure.
\<close>

record 's world =
  ReadFile :: "'s \<Rightarrow> string \<Rightarrow> error + byte list"
  Stat :: "'s \<Rightarrow> string \<Rightarrow> error option"
  ReadDir :: "'s \<Rightarrow> string \<Rightarrow> error + (string \<times> bool) list"
  MkdirAll :: "'s \<Rightarrow> string \<Rightarrow> nat \<Rightarrow> error option \<times> 's"
  Create :: "'s \<Rightarrow> string \<Rightarrow> error option \<times> 's"
  WriteFile :: "'s \<Rightarrow> string \<Rightarrow> byte list \<Rightarrow> nat \<Rightarrow> error option \<times> 's"
  path_Dir :: "string \<Rightarrow> string"
  path_Join :: "string list \<Rightarrow> string"
  filepath_Join :: "string list \<Rightarrow> string"
  IsEncrypted :: "'s \<Rightarrow> string \<Rightarrow> error + bool"
  sql_Open :: "'s \<Rightarrow> string \<Rightarrow> string \<Rightarrow> error option \<times> 's"
  db_Exec :: "'s \<Rightarrow> sql_DB \<Rightarrow> string \<Rightarrow> error option \<times> 's"
  gorm_Open :: "'s \<Rightarrow> string \<Rightarrow> gorm_Config \<Rightarrow> error option \<times> 's"

text \<open>File modes: \<open>0o700\<close>, \<open>0o600\<close> and \<open>os.ModePerm\<close> (\<open>0o777\<close>).\<close>

definition mode_0o700 :: nat where
  "mode_0o700 = 448"

definition mode_0o600 :: nat where
  "mode_0o600 = 384"

definition os_ModePerm :: nat where
  "os_ModePerm = 511"

subsection \<open>\<open>GetDevicePushKeyForPath\<close>\<close>

text \<open>
  Lines 56--60: \<open>contents\<close> starts as \<open>2 * KeySize\<close> zero bytes, and the loop stores
  \<open>pk[i]\<close> at \<open>i\<close> and \<open>sk[i]\<close> at \<open>i + KeySize\<close>. \<open>pk\<close> and \<open>sk\<close> are arrays of
  \<open>KeySize\<close> bytes, so every index of the loop is in range.
\<close>

function fill_contents :: "byte list \<Rightarrow> byte list \<Rightarrow> nat \<Rightarrow> byte list \<Rightarrow> byte list" where
  "fill_contents pk sk i contents =
     (if i < KeySize
      then fill_contents pk sk (i + 1) ((contents[i := pk ! i])[i + KeySize := sk ! i])
      else contents)"
  by pat_completeness auto
termination
  by (relation "measure (\<lambda>(pk, sk, i, contents). KeySize - i)") auto

text \<open>
  Lines 75--81: \<open>pkVal\<close> and \<open>skVal\<close> start as zero arrays, and the loop reads
  \<open>contents[i]\<close> and \<open>contents[i + KeySize]\<close>. \<open>contents\<close> is a slice as long as the file:
  an index at or beyond its length panics.
\<close>

function split_contents ::
  "byte list \<Rightarrow> nat \<Rightarrow> byte list \<Rightarrow> byte list \<Rightarrow> error + byte list \<times> byte list" where
  "split_contents contents i pkVal skVal =
     (if i < KeySize
      then (if i < length contents
            then (if i + KeySize < length contents
                  then split_contents contents (i + 1)
                         (pkVal[i := contents ! i]) (skVal[i := contents ! (i + KeySize)])
                  else Inl (IndexOutOfRange (i + KeySize) (length contents)))
            else Inl (IndexOutOfRange i (length contents)))
      else Inr (pkVal, skVal))"
  by pat_completeness auto
termination
  by (relation "measure (\<lambda>(contents, i, pkVal, skVal). KeySize - i)") auto

text \<open>
  \<open>GetDevicePushKeyForPath w GenerateKey s filePath createIfMissing\<close>:
  \<open>GenerateKey\<close> is the outcome of \<open>box.GenerateKey(crand.Reader)\<close>, an error or the two
  key arrays. The result comes with the world the call leaves.
\<close>

definition GetDevicePushKeyForPath ::
  "'s world \<Rightarrow> (error + byte list \<times> byte list) \<Rightarrow> 's \<Rightarrow> string \<Rightarrow> bool
     \<Rightarrow> (error + byte list \<times> byte list) \<times> 's" where
  "GetDevicePushKeyForPath w GenerateKey s filePath createIfMissing =
     (case ReadFile w s filePath of
        Inl err \<Rightarrow>
          (if os_IsNotExist err \<and> createIfMissing
           then (case MkdirAll w s (path_Dir w filePath) mode_0o700 of
                   (Some err, s1) \<Rightarrow> (Inl (Wrap ErrInternal err), s1)
                 | (None, s1) \<Rightarrow>
                     (case GenerateKey of
                        Inl err \<Rightarrow> (Inl (Wrap ErrCryptoKeyGeneration err), s1)
                      | Inr (pk, sk) \<Rightarrow>
                          (let contents = fill_contents pk sk 0 (replicate (KeySize * 2) 0)
                           in (case Create w s1 filePath of
                                 (Some err, s2) \<Rightarrow> (Inl (Wrap ErrInternal err), s2)
                               | (None, s2) \<Rightarrow>
                                   (case WriteFile w s2 filePath contents mode_0o600 of
                                      (Some err, s3) \<Rightarrow> (Inl (Wrap ErrInternal err), s3)
                                    | (None, s3) \<Rightarrow> (Inr (pk, sk), s3))))))
           else (Inl (Wrap ErrPushUnableToDecrypt
                        (ErrorString ''unable to get device push key'')), s))
      | Inr contents \<Rightarrow>
          (split_contents contents 0 (replicate KeySize 0) (replicate KeySize 0), s))"

subsection \<open>Account metadata: \<open>GetAccountMetaForName\<close> and \<open>ListAccounts\<close>\<close>

text \<open>
  Modelled from the spec: the message type \<open>accounttypes.AccountMetadata\<close> is declared in
  another package. The spec gives it as the account identifier, other opaque serialized
  fields, and an error string; the zero value of each field is empty.
\<close>

record AccountMetadata =
  AccountID :: string
  Opaque :: "byte list"
  Error :: string

text \<open>
  \<open>GetAccountMetaForName w proto_Unmarshal s rootDir accountID logger\<close>:
  \<open>proto_Unmarshal\<close> decodes the bytes of a metadata file into a fresh message, or fails.
  The logger is a pointer, \<open>None\<close> for nil. The result comes with the log entries written.
\<close>

definition GetAccountMetaForName ::
  "'s world \<Rightarrow> (byte list \<Rightarrow> error + AccountMetadata) \<Rightarrow> 's \<Rightarrow> string \<Rightarrow> string
     \<Rightarrow> zap_Logger option \<Rightarrow> (error + AccountMetadata) \<times> log_entry list" where
  "GetAccountMetaForName w proto_Unmarshal s rootDir accountID logger =
     (let logger = (case logger of None \<Rightarrow> NopLogger | Some l \<Rightarrow> l);
          metafileName = filepath_Join w [rootDir, accountID, AccountMetafileName]
      in (case ReadFile w s metafileName of
            Inl err \<Rightarrow>
              (if os_IsNotExist err
               then (Inl (ErrCode ErrBertyAccountDataNotFound), [])
               else (Inl (Wrap ErrBertyAccountFSError
                            (Errorf ''unable to read account metadata: '' err)),
                     zap_Warn logger ''unable to read account metadata''
                       [zap_Error err, zap_String ''account-id'' accountID]))
          | Inr metaBytes \<Rightarrow>
              (case proto_Unmarshal metaBytes of
                 Inl err \<Rightarrow>
                   (Inl (Wrap ErrDeserialization
                           (Errorf ''unable to unmarshall account metadata: '' err)), [])
               | Inr meta \<Rightarrow> (Inr (meta\<lparr>AccountID := accountID\<rparr>), []))))"

text \<open>
  The loop of \<open>ListAccounts\<close> (lines 104--115) over the directory entries, with the
  accounts and the log entries collected so far. \<open>Error_string\<close> is the \<open>Error()\<close> method
  of an error value, which package \<open>errcode\<close> and the standard library define.
\<close>

fun ListAccounts_loop ::
  "'s world \<Rightarrow> (byte list \<Rightarrow> error + AccountMetadata) \<Rightarrow> (error \<Rightarrow> string) \<Rightarrow> 's \<Rightarrow> string
     \<Rightarrow> zap_Logger \<Rightarrow> (string \<times> bool) list \<Rightarrow> AccountMetadata list \<Rightarrow> log_entry list
     \<Rightarrow> AccountMetadata list \<times> log_entry list" where
  "ListAccounts_loop w proto_Unmarshal Error_string s rootDir logger [] accounts log =
     (accounts, log)"
| "ListAccounts_loop w proto_Unmarshal Error_string s rootDir logger
     ((name, isDir) # subitems) accounts log =
     (if \<not> isDir
      then ListAccounts_loop w proto_Unmarshal Error_string s rootDir logger
             subitems accounts log
      else (case GetAccountMetaForName w proto_Unmarshal s rootDir name (Some logger) of
              (Inl err, l) \<Rightarrow>
                ListAccounts_loop w proto_Unmarshal Error_string s rootDir logger subitems
                  (accounts @ [\<lparr>AccountID = name, Opaque = [], Error = Error_string err\<rparr>])
                  (log @ l)
            | (Inr account, l) \<Rightarrow>
                ListAccounts_loop w proto_Unmarshal Error_string s rootDir logger subitems
                  (accounts @ [account]) (log @ l)))"

definition ListAccounts ::
  "'s world \<Rightarrow> (byte list \<Rightarrow> error + AccountMetadata) \<Rightarrow> (error \<Rightarrow> string) \<Rightarrow> 's \<Rightarrow> string
     \<Rightarrow> zap_Logger option \<Rightarrow> (error + AccountMetadata list) \<times> log_entry list" where
  "ListAccounts w proto_Unmarshal Error_string s rootDir logger =
     (let logger = (case logger of None \<Rightarrow> NopLogger | Some l \<Rightarrow> l)
      in (case Stat w s rootDir of
            Some err \<Rightarrow>
              (if os_IsNotExist err then (Inr [], [])
               else (Inl (Wrap ErrBertyAccountFSError err), []))
          | None \<Rightarrow>
              (case ReadDir w s rootDir of
                 Inl err \<Rightarrow> (Inl (Wrap ErrBertyAccountFSError err), [])
               | Inr subitems \<Rightarrow>
                   (case ListAccounts_loop w proto_Unmarshal Error_string s rootDir logger
                           subitems [] [] of
                      (accounts, log) \<Rightarrow> (Inr accounts, log)))))"

subsection \<open>Connection strings\<close>

text \<open>\<open>hex.EncodeToString\<close>: two lower-case hexadecimal digits per byte.\<close>

definition hex_digit :: "nat \<Rightarrow> char" where
  "hex_digit n = ''0123456789abcdef'' ! n"

definition hex_EncodeToString :: "byte list \<Rightarrow> string" where
  "hex_EncodeToString src =
     concat (map (\<lambda>b. [hex_digit (unat b div 16), hex_digit (unat b mod 16)]) src)"

text \<open>
  \<open>fmt.Sprintf("%s?_pragma_key=x'%s'&_pragma_cipher_page_size=4096", p, hexKey)\<close>, the
  format of lines 217 and 276.
\<close>

definition Sprintf_pragma_key :: "string \<Rightarrow> string \<Rightarrow> string" where
  "Sprintf_pragma_key p hexKey =
     p @ ''?_pragma_key=x'' @ [CHR 0x27] @ hexKey @ [CHR 0x27]
       @ ''&_pragma_cipher_page_size=4096''"

text \<open>
  The verb \<open>%d\<close> on an \<open>int64\<close>: the decimal digits, most significant first and taken
  from the digit table, after a minus sign when the value is negative.
\<close>

definition decimal_digit :: "nat \<Rightarrow> char" where
  "decimal_digit n = ''0123456789'' ! n"

function decimal :: "nat \<Rightarrow> string" where
  "decimal n =
     (if n < 10 then [decimal_digit n]
      else decimal (n div 10) @ [decimal_digit (n mod 10)])"
  by pat_completeness auto
termination
  by (relation "measure (\<lambda>n. n)") auto

definition Sprintf_d :: "int \<Rightarrow> string" where
  "Sprintf_d i = (if i < 0 then CHR ''-'' # decimal (nat (- i)) else decimal (nat i))"

subsection \<open>\<open>GetDatastoreDir\<close>\<close>

definition GetDatastoreDir :: "'s world \<Rightarrow> 's \<Rightarrow> string \<Rightarrow> (error + string) \<times> 's" where
  "GetDatastoreDir w s dir =
     (if dir = []
      then (Inl (Wrap TODO (ErrorString ''--store.dir is empty'')), s)
      else if dir = InMemoryDir then (Inr InMemoryDir, s)
      else (case Stat w s dir of
              Some err \<Rightarrow>
                (if os_IsNotExist err
                 then (case MkdirAll w s dir mode_0o700 of
                         (Some err, s1) \<Rightarrow> (Inl (Wrap TODO err), s1)
                       | (None, s1) \<Rightarrow> (Inr dir, s1))
                 else (Inl (Wrap TODO err), s))
            | None \<Rightarrow> (Inr dir, s)))"

subsection \<open>\<open>GetRootDatastoreForPath\<close>\<close>

text \<open>The statement of lines 233--236, a raw string literal with its line breaks and tabs.\<close>

definition create_table_stmt :: "string \<Rightarrow> string" where
  "create_table_stmt tableName =
     ''CREATE TABLE IF NOT EXISTS '' @ tableName @ '' ('' @ [CHR 0x0A, CHR 0x09, CHR 0x09, CHR 0x09]
       @ ''key TEXT PRIMARY KEY,'' @ [CHR 0x0A, CHR 0x09, CHR 0x09, CHR 0x09]
       @ ''data BLOB'' @ [CHR 0x0A, CHR 0x09, CHR 0x09]
       @ '') WITHOUT ROWID;''"

text \<open>
  Lines 226--247, which both branches of the key test reach with their \<open>dbURL\<close>: open the
  database, create the table, build the datastore and wrap it. \<open>log\<close> holds the log
  entries written before.
\<close>

definition open_root_db ::
  "'s world \<Rightarrow> 's \<Rightarrow> string \<Rightarrow> log_entry list
     \<Rightarrow> (error + datastore) \<times> 's \<times> log_entry list" where
  "open_root_db w s dbURL log =
     (case sql_Open w s ''sqlite3'' dbURL of
        (Some err, s1) \<Rightarrow> (Inl (Wrap ErrDBOpen err), s1, log)
      | (None, s1) \<Rightarrow>
          (case db_Exec w s1 (SqlDB ''sqlite3'' dbURL) (create_table_stmt ''blocks'') of
             (Some err, s2) \<Rightarrow> (Inl (Wrap ErrDBWrite err), s2, log)
           | (None, s2) \<Rightarrow>
               (Inr (MutexWrap (SqlDatastore (SqlDB ''sqlite3'' dbURL) ''blocks'')), s2, log)))"

text \<open>
  \<open>GetRootDatastoreForPath w s dir key logger\<close>. The logger is used without a nil test,
  so the argument is a logger. The result comes with the world left behind and the log
  entries written.
\<close>

definition GetRootDatastoreForPath ::
  "'s world \<Rightarrow> 's \<Rightarrow> string \<Rightarrow> byte list \<Rightarrow> zap_Logger
     \<Rightarrow> (error + datastore) \<times> 's \<times> log_entry list" where
  "GetRootDatastoreForPath w s dir key logger =
     (let inMemory = (dir = InMemoryDir)
      in if inMemory then (Inr (MutexWrap MapDatastore), s, [])
         else (case MkdirAll w s dir os_ModePerm of
                 (Some err, s1) \<Rightarrow> (Inl (Wrap TODO err), s1, [])
               | (None, s1) \<Rightarrow>
                   (let dbPath = filepath_Join w [dir, ''datastore.sqlite''];
                        hasDB = (Stat w s1 dbPath = None);
                        hasEncryptedDB =
                          (case IsEncrypted w s1 dbPath of Inl err \<Rightarrow> False | Inr b \<Rightarrow> b)
                    in if length key \<noteq> 0
                       then (if hasDB \<and> \<not> hasEncryptedDB
                             then (Inl (Wrap ErrInvalidInput (ErrorString
                                     ''storage key provided while datastore db is NOT encrypted'')),
                                   s1, [])
                             else open_root_db w s1
                                    (Sprintf_pragma_key dbPath (hex_EncodeToString key)) [])
                       else (if hasDB \<and> hasEncryptedDB
                             then (Inl (Wrap ErrInvalidInput (ErrorString
                                     ''missing storage key, db is encrypted'')), s1, [])
                             else open_root_db w s1 dbPath
                                    (zap_Warn logger
                                       ''root datastore encryption disabled: no key provided''
                                       [])))))"

text \<open>
  The derived tri-state of the spec's data model, read off the two probes of lines
  202--209 as the code reads them: the file is there when \<open>os.Stat\<close> succeeds, and is
  encrypted when \<open>sqlite3.IsEncrypted\<close> answers true.
\<close>

datatype EncryptionState = absent | plaintext | encrypted

definition probe_EncryptionState :: "'s world \<Rightarrow> 's \<Rightarrow> string \<Rightarrow> EncryptionState" where
  "probe_EncryptionState w s dbPath =
     (case Stat w s dbPath of
        Some err \<Rightarrow> absent
      | None \<Rightarrow>
          (case IsEncrypted w s dbPath of
             Inr True \<Rightarrow> encrypted
           | Inr False \<Rightarrow> plaintext
           | Inl err \<Rightarrow> plaintext))"

subsection \<open>The relational databases\<close>

text \<open>
  Lines 269--278 of \<open>GetGormDBForPath\<close>: the connection string. \<open>UnixNano\<close> is the value
  of \<open>time.Now().UnixNano()\<close> at the call, an \<open>int64\<close>.
\<close>

definition gorm_sqliteConn :: "64 word \<Rightarrow> string \<Rightarrow> byte list \<Rightarrow> string" where
  "gorm_sqliteConn UnixNano dbPath key =
     (if dbPath = InMemoryDir
      then ''file:memdb'' @ Sprintf_d (sint UnixNano) @ ''?mode=memory&cache=shared''
      else if length key \<noteq> 0
           then Sprintf_pragma_key dbPath (hex_EncodeToString key)
           else dbPath)"

text \<open>
  \<open>GetGormDBForPath w UnixNano s dbPath key logger\<close>. The handle returned is the one
  opened on the connection string; the close function returned with it is the closure
  that closes that handle's connection, and is not a separate component of the result.
\<close>

definition GetGormDBForPath ::
  "'s world \<Rightarrow> 64 word \<Rightarrow> 's \<Rightarrow> string \<Rightarrow> byte list \<Rightarrow> zap_Logger
     \<Rightarrow> (error + gorm_DB) \<times> 's" where
  "GetGormDBForPath w UnixNano s dbPath key logger =
     (let sqliteConn = gorm_sqliteConn UnixNano dbPath key;
          cfg = \<lparr>Logger = (logger, ''gorm''),
                 DisableForeignKeyConstraintWhenMigrating = True\<rparr>
      in (case gorm_Open w s sqliteConn cfg of
            (Some err, s1) \<Rightarrow> (Inl (Wrap TODO err), s1)
          | (None, s1) \<Rightarrow> (Inr (GormDB sqliteConn), s1)))"

definition GetMessengerDBForPath ::
  "'s world \<Rightarrow> 64 word \<Rightarrow> 's \<Rightarrow> string \<Rightarrow> byte list \<Rightarrow> zap_Logger
     \<Rightarrow> (error + gorm_DB) \<times> 's" where
  "GetMessengerDBForPath w UnixNano s dir key logger =
     GetGormDBForPath w UnixNano s
       (if dir \<noteq> InMemoryDir then path_Join w [dir, MessengerDatabaseFilename] else dir)
       key logger"

definition GetReplicationDBForPath ::
  "'s world \<Rightarrow> 64 word \<Rightarrow> 's \<Rightarrow> string \<Rightarrow> zap_Logger \<Rightarrow> (error + gorm_DB) \<times> 's" where
  "GetReplicationDBForPath w UnixNano s dir logger =
     GetGormDBForPath w UnixNano s
       (if dir \<noteq> InMemoryDir then path_Join w [dir, ReplicationDatabaseFilename] else dir)
       [] logger"

subsection \<open>A small world for running the functions\<close>

text \<open>
  A file system as an association list from paths to nodes, the newest binding first.
  Paths are joined with a slash. A file counts as encrypted when it does not start with
  the letter \<open>S\<close> of the SQLite header; an empty file has no header to read. The database
  calls succeed and leave the world as it is.
\<close>

datatype node = Dir | File "byte list"

definition sim_join :: "string list \<Rightarrow> string" where
  "sim_join elems = foldr (\<lambda>e r. if r = [] then e else e @ ''/'' @ r) elems []"

definition sim_world :: "(string \<times> node) list world" where
  "sim_world =
     \<lparr>ReadFile = (\<lambda>s p. case map_of s p of
                           None \<Rightarrow> Inl ErrNotExist
                         | Some Dir \<Rightarrow> Inl (ExternalError ''is a directory'')
                         | Some (File c) \<Rightarrow> Inr c),
      Stat = (\<lambda>s p. case map_of s p of None \<Rightarrow> Some ErrNotExist | Some n \<Rightarrow> None),
      ReadDir = (\<lambda>s p. case map_of s p of
                          None \<Rightarrow> Inl ErrNotExist
                        | Some (File c) \<Rightarrow> Inl (ExternalError ''not a directory'')
                        | Some Dir \<Rightarrow>
                            Inr (List.map_filter
                                   (\<lambda>(q, n). if take (length p + 1) q = p @ ''/''
                                                 \<and> CHR ''/'' \<notin> set (drop (length p + 1) q)
                                              then Some (drop (length p + 1) q, n = Dir)
                                              else None) s)),
      MkdirAll = (\<lambda>s p m. case map_of s p of
                             None \<Rightarrow> (None, (p, Dir) # s)
                           | Some Dir \<Rightarrow> (None, s)
                           | Some (File c) \<Rightarrow> (Some (ExternalError ''not a directory''), s)),
      Create = (\<lambda>s p. case map_of s p of
                         Some Dir \<Rightarrow> (Some (ExternalError ''is a directory''), s)
                       | _ \<Rightarrow> (None, (p, File []) # s)),
      WriteFile = (\<lambda>s p c m. case map_of s p of
                                Some Dir \<Rightarrow> (Some (ExternalError ''is a directory''), s)
                              | _ \<Rightarrow> (None, (p, File c) # s)),
      path_Dir = (\<lambda>p. rev (tl (dropWhile (\<lambda>c. c \<noteq> CHR ''/'') (rev p)))),
      path_Join = sim_join,
      filepath_Join = sim_join,
      IsEncrypted = (\<lambda>s p. case map_of s p of
                              None \<Rightarrow> Inl ErrNotExist
                            | Some Dir \<Rightarrow> Inl (ExternalError ''is a directory'')
                            | Some (File []) \<Rightarrow> Inl (ExternalError ''could not read full header'')
                            | Some (File (b # c)) \<Rightarrow> Inr (b \<noteq> 0x53)),
      sql_Open = (\<lambda>s driver dsn. (None, s)),
      db_Exec = (\<lambda>s db stmt. (None, s)),
      gorm_Open = (\<lambda>s dsn cfg. (None, s))\<rparr>"

subsection \<open>Error kinds and a metadata decoder for running the functions\<close>

text \<open>
  The error kind \<open>NotFound\<close> of the spec, read on error values: the not-found code among
  the codes this file uses, or the operating system's not-exist error, bare or wrapped.
\<close>

fun is_NotFound :: "error \<Rightarrow> bool" where
  "is_NotFound ErrNotExist = True"
| "is_NotFound (ErrCode c) = (c = ErrBertyAccountDataNotFound)"
| "is_NotFound (Wrap c e) = (c = ErrBertyAccountDataNotFound \<or> is_NotFound e)"
| "is_NotFound (Errorf m e) = is_NotFound e"
| "is_NotFound _ = False"

text \<open>
  A stand-in for \<open>proto.Unmarshal\<close> on small inputs: no bytes and a leading \<open>0xFF\<close> do
  not decode; anything else decodes to a message whose embedded identifier is \<open>stale\<close>.
\<close>

definition sim_Unmarshal :: "byte list \<Rightarrow> error + AccountMetadata" where
  "sim_Unmarshal bs =
     (case bs of
        [] \<Rightarrow> Inl (ExternalError ''unexpected EOF'')
      | b # rest \<Rightarrow>
          if b = 0xFF then Inl (ExternalError ''illegal tag'')
          else Inr \<lparr>AccountID = ''stale'', Opaque = rest, Error = []\<rparr>)"

text \<open>A stand-in for the \<open>Error()\<close> method of error values.\<close>

fun sim_Error_string :: "error \<Rightarrow> string" where
  "sim_Error_string (Wrap c e) = ''wrapped: '' @ sim_Error_string e"
| "sim_Error_string (Errorf m e) = m @ sim_Error_string e"
| "sim_Error_string (ExternalError m) = m"
| "sim_Error_string (ErrorString m) = m"
| "sim_Error_string e = ''error''"

section \<open>Properties\<close>

subsection \<open>The storage key\<close>

text \<open>
  Claim C4. When the first \<open>Get\<close> of the storage key succeeds, its value is returned and
  the only call on the keystore is that \<open>Get\<close>. When it fails and the random bytes are
  there, they are stored with \<open>Put\<close> and the key returned is the one a second \<open>Get\<close>
  gives, whatever the bytes generated were. When the \<open>Put\<close> or the second \<open>Get\<close> fails,
  the error returned wraps the combination of the first \<open>Get\<close> error and that second
  error, and the combination lists the errors of both.
\<close>

theorem GetOrCreateStorageKey_fetch_or_confirm:
  "(\<forall>key k1. Get ks k StorageKeyName = (Inr key, k1) \<longrightarrow>
      GetOrCreateStorageKey ks crand_Read k = (Inr key, k1, [CallGet StorageKeyName]))
   \<and> (\<forall>getErr k1 keyData k2 key k3.
         Get ks k StorageKeyName = (Inl getErr, k1) \<and> crand_Read KeySize = Inr keyData \<and>
         Put ks k1 StorageKeyName keyData = (None, k2) \<and>
         Get ks k2 StorageKeyName = (Inr key, k3) \<longrightarrow>
         GetOrCreateStorageKey ks crand_Read k =
           (Inr key, k3,
            [CallGet StorageKeyName, CallPut StorageKeyName keyData, CallGet StorageKeyName]))
   \<and> (\<forall>getErr k1 keyData k2 err k3.
         Get ks k StorageKeyName = (Inl getErr, k1) \<and> crand_Read KeySize = Inr keyData \<and>
         Put ks k1 StorageKeyName keyData = (None, k2) \<and>
         Get ks k2 StorageKeyName = (Inl err, k3) \<longrightarrow>
         GetOrCreateStorageKey ks crand_Read k =
           (Inl (Wrap ErrKeystorePut (multierr_Append getErr err)), k3,
            [CallGet StorageKeyName, CallPut StorageKeyName keyData, CallGet StorageKeyName]))
   \<and> (\<forall>getErr k1 keyData err k2.
         Get ks k StorageKeyName = (Inl getErr, k1) \<and> crand_Read KeySize = Inr keyData \<and>
         Put ks k1 StorageKeyName keyData = (Some err, k2) \<longrightarrow>
         GetOrCreateStorageKey ks crand_Read k =
           (Inl (Wrap ErrKeystoreGet (multierr_Append getErr err)), k2,
            [CallGet StorageKeyName, CallPut StorageKeyName keyData]))
   \<and> (\<forall>left right. multierr_Errors (multierr_Append left right) =
         multierr_Errors left @ multierr_Errors right)"
  by (simp add: GetOrCreateStorageKey_def multierr_Append_def)

text \<open>
  The four cases on keystores that run: an entry that is there; a keystore that seals what
  it stores, so that the key returned differs from the bytes generated; one that accepts
  the \<open>Put\<close> and forgets it; one that refuses the \<open>Put\<close>.
\<close>

theorem GetOrCreateStorageKey_fetch_or_confirm_witness:
  "GetOrCreateStorageKey map_keystore (\<lambda>n. Inr (replicate n 7)) [(''storage'', [1, 2, 3])]
     = (Inr [1, 2, 3], [(''storage'', [1, 2, 3])], [CallGet ''storage''])
   \<and> GetOrCreateStorageKey sealing_keystore (\<lambda>n. Inr (replicate n 7)) []
     = (Inr (1 # replicate 32 7), [(''storage'', 1 # replicate 32 7)],
        [CallGet ''storage'', CallPut ''storage'' (replicate 32 7), CallGet ''storage''])
   \<and> GetOrCreateStorageKey forgetful_keystore (\<lambda>n. Inr (replicate n 7)) []
     = (Inl (Wrap ErrKeystorePut
               (MultiErr [ExternalError ''no such entry'', ExternalError ''no such entry''])), [],
        [CallGet ''storage'', CallPut ''storage'' (replicate 32 7), CallGet ''storage''])
   \<and> GetOrCreateStorageKey readonly_keystore (\<lambda>n. Inr (replicate n 7)) []
     = (Inl (Wrap ErrKeystoreGet
               (MultiErr [ExternalError ''no such entry'', ExternalError ''read-only''])), [],
        [CallGet ''storage'', CallPut ''storage'' (replicate 32 7)])"
  using GetOrCreateStorageKey_fetch_or_confirm
          [of map_keystore "[(''storage'', [1, 2, 3])]" "\<lambda>n. Inr (replicate n 7)"]
        GetOrCreateStorageKey_fetch_or_confirm
          [of sealing_keystore "[]" "\<lambda>n. Inr (replicate n 7)"]
        GetOrCreateStorageKey_fetch_or_confirm
          [of forgetful_keystore "[]" "\<lambda>n. Inr (replicate n 7)"]
        GetOrCreateStorageKey_fetch_or_confirm
          [of readonly_keystore "[]" "\<lambda>n. Inr (replicate n 7)"]
  by (simp add: map_keystore_def sealing_keystore_def forgetful_keystore_def
        readonly_keystore_def StorageKeyName_def KeySize_def multierr_Append_def)

subsection \<open>The root datastore\<close>

lemma open_root_db_not_InvalidInput:
  "fst (open_root_db w s url log) \<noteq> Inl (Wrap ErrInvalidInput e)"
  by (simp add: open_root_db_def split: prod.splits option.splits)

lemma open_root_db_IsEncrypted_update:
  "open_root_db (w\<lparr>IsEncrypted := f\<rparr>) s url log = open_root_db w s url log"
  by (simp add: open_root_db_def split: prod.split option.split)

text \<open>
  Claim C1. For a directory other than the in-memory sentinel, once the directory is
  there (\<open>os.MkdirAll\<close> succeeded): over the three states of the database file and the
  two of the key, \<open>GetRootDatastoreForPath\<close> fails with \<open>ErrInvalidInput\<close> exactly when the
  file is there encrypted and the key is empty, or the file is there unencrypted and the
  key is not empty. In every other combination the function goes on to open the database,
  on the bare path without a key and on the path with the key parameters with one.
\<close>

theorem GetRootDatastoreForPath_consistency:
  assumes "dir \<noteq> InMemoryDir" and "MkdirAll w s dir os_ModePerm = (None, s1)"
  shows "let dbPath = filepath_Join w [dir, ''datastore.sqlite''];
             st = probe_EncryptionState w s1 dbPath;
             mismatch = (st = encrypted \<and> key = [] \<or> st = plaintext \<and> key \<noteq> [])
         in ((\<exists>e. fst (GetRootDatastoreForPath w s dir key logger) = Inl (Wrap ErrInvalidInput e))
               \<longleftrightarrow> mismatch) \<and>
            (\<not> mismatch \<longrightarrow>
               GetRootDatastoreForPath w s dir key logger =
                 (if key = []
                  then open_root_db w s1 dbPath
                         (zap_Warn logger ''root datastore encryption disabled: no key provided'' [])
                  else open_root_db w s1
                         (Sprintf_pragma_key dbPath (hex_EncodeToString key)) []))"
  using assms
  by (auto simp: GetRootDatastoreForPath_def probe_EncryptionState_def Let_def
        open_root_db_not_InvalidInput
      split: option.splits sum.splits bool.splits)

text \<open>
  An encrypted database file: without a key the open is refused, with a key it goes
  through on the connection string that carries the key.
\<close>

theorem GetRootDatastoreForPath_consistency_witness:
  "''acc'' \<noteq> InMemoryDir
   \<and> MkdirAll sim_world [(''acc/datastore.sqlite'', File [0xA1, 0x07]), (''acc'', Dir)] ''acc''
         os_ModePerm
       = (None, [(''acc/datastore.sqlite'', File [0xA1, 0x07]), (''acc'', Dir)])
   \<and> probe_EncryptionState sim_world
         [(''acc/datastore.sqlite'', File [0xA1, 0x07]), (''acc'', Dir)] ''acc/datastore.sqlite''
       = encrypted
   \<and> fst (GetRootDatastoreForPath sim_world
              [(''acc/datastore.sqlite'', File [0xA1, 0x07]), (''acc'', Dir)] ''acc'' [] LiveLogger)
       = Inl (Wrap ErrInvalidInput (ErrorString ''missing storage key, db is encrypted''))
   \<and> fst (GetRootDatastoreForPath sim_world
              [(''acc/datastore.sqlite'', File [0xA1, 0x07]), (''acc'', Dir)] ''acc'' [0x0F, 0xA0]
              LiveLogger)
       = Inr (MutexWrap (SqlDatastore
           (SqlDB ''sqlite3''
              (''acc/datastore.sqlite?_pragma_key=x'' @ [CHR 0x27] @ ''0fa0'' @ [CHR 0x27]
                 @ ''&_pragma_cipher_page_size=4096''))
           ''blocks''))"
proof -
  let ?s = "[(''acc/datastore.sqlite'', File [0xA1, 0x07 :: byte]), (''acc'', Dir)]"
  have h1: "''acc'' \<noteq> InMemoryDir"
    by (simp add: InMemoryDir_def)
  have h2: "MkdirAll sim_world ?s ''acc'' os_ModePerm = (None, ?s)"
    by (simp add: sim_world_def)
  have p: "probe_EncryptionState sim_world ?s ''acc/datastore.sqlite'' = encrypted"
    by (simp add: probe_EncryptionState_def sim_world_def)
  have j: "filepath_Join sim_world [''acc'', ''datastore.sqlite''] = ''acc/datastore.sqlite''"
    by (simp add: sim_world_def sim_join_def)
  have o: "open_root_db sim_world ?s url log =
             (Inr (MutexWrap (SqlDatastore (SqlDB ''sqlite3'' url) ''blocks'')), ?s, log)"
    for url log
    by (simp add: open_root_db_def sim_world_def)
  have x: "hex_EncodeToString [0x0F, 0xA0] = ''0fa0''"
    by (simp add: hex_EncodeToString_def hex_digit_def)
  have e: "fst (GetRootDatastoreForPath sim_world ?s ''acc'' [] LiveLogger)
             = Inl (Wrap ErrInvalidInput (ErrorString ''missing storage key, db is encrypted''))"
    using h1 by (simp add: GetRootDatastoreForPath_def sim_world_def sim_join_def os_ModePerm_def)
  show ?thesis
    using h1 h2 e GetRootDatastoreForPath_consistency [OF h1 h2, of "[]" LiveLogger]
      GetRootDatastoreForPath_consistency [OF h1 h2, of "[0x0F, 0xA0]" LiveLogger]
    by (simp add: p j o x Let_def Sprintf_pragma_key_def)
qed

text \<open>
  Claim C9. A failure of the encryption probe is taken as "not encrypted" and is not
  returned: replacing every failing outcome of \<open>sqlite3.IsEncrypted\<close> by the answer
  \<open>false\<close> changes nothing in what \<open>GetRootDatastoreForPath\<close> returns, leaves and logs.
\<close>

theorem probe_failure_is_not_encrypted:
  "GetRootDatastoreForPath
     (w\<lparr>IsEncrypted := (\<lambda>s p. case IsEncrypted w s p of
                                 Inl err \<Rightarrow> Inr False | Inr b \<Rightarrow> Inr b)\<rparr>) s dir key logger
   = GetRootDatastoreForPath w s dir key logger"
proof (cases "MkdirAll w s dir os_ModePerm")
  case (Pair r s1)
  show ?thesis
  proof (cases "IsEncrypted w s1 (filepath_Join w [dir, ''datastore.sqlite''])")
    case (Inl err)
    with Pair show ?thesis
      by (simp add: GetRootDatastoreForPath_def open_root_db_IsEncrypted_update Let_def
            split: option.split)
  next
    case (Inr b)
    with Pair show ?thesis
      by (simp add: GetRootDatastoreForPath_def open_root_db_IsEncrypted_update Let_def
            split: option.split)
  qed
qed

subsection \<open>Account metadata\<close>

text \<open>
  Claim C7. Whenever \<open>GetAccountMetaForName\<close> succeeds, the \<open>AccountID\<close> of the metadata
  returned is the \<open>accountID\<close> argument: the result is the decoded message with that field
  overwritten, whatever identifier the file encodes.
\<close>

theorem GetAccountMetaForName_AccountID:
  assumes "GetAccountMetaForName w proto_Unmarshal s rootDir accountID logger = (Inr meta, log)"
  shows "AccountID meta = accountID \<and>
         (\<exists>metaBytes decoded.
            ReadFile w s (filepath_Join w [rootDir, accountID, AccountMetafileName]) = Inr metaBytes \<and>
            proto_Unmarshal metaBytes = Inr decoded \<and>
            meta = decoded\<lparr>AccountID := accountID\<rparr>)"
  using assms
  by (auto simp: GetAccountMetaForName_def Let_def split: sum.splits if_splits)

text \<open>A metadata file that encodes \<open>stale\<close>, stored under the directory \<open>real-id\<close>.\<close>

theorem GetAccountMetaForName_AccountID_witness:
  "GetAccountMetaForName sim_world sim_Unmarshal
     [(''root/real-id/account_meta'', File [1, 2, 3])] ''root'' ''real-id'' None
   = (Inr \<lparr>AccountID = ''real-id'', Opaque = [2, 3], Error = []\<rparr>, [])
   \<and> sim_Unmarshal [1, 2, 3] = Inr \<lparr>AccountID = ''stale'', Opaque = [2, 3], Error = []\<rparr>"
proof -
  have g: "GetAccountMetaForName sim_world sim_Unmarshal
     [(''root/real-id/account_meta'', File [1, 2, 3])] ''root'' ''real-id'' None
   = (Inr \<lparr>AccountID = ''real-id'', Opaque = [2, 3], Error = []\<rparr>, [])"
    by (simp add: GetAccountMetaForName_def sim_world_def sim_join_def sim_Unmarshal_def
          AccountMetafileName_def)
  show ?thesis
    using g GetAccountMetaForName_AccountID [OF g]
    by (simp add: sim_Unmarshal_def)
qed

text \<open>The loop of \<open>ListAccounts\<close> maps the directories among the entries, in order.\<close>

lemma ListAccounts_loop_eq:
  "ListAccounts_loop w unm Error_string s rootDir logger subitems accounts log =
     (accounts @ map (\<lambda>name. case fst (GetAccountMetaForName w unm s rootDir name (Some logger)) of
                               Inl err \<Rightarrow> \<lparr>AccountID = name, Opaque = [], Error = Error_string err\<rparr>
                             | Inr account \<Rightarrow> account)
                   (map fst (filter snd subitems)),
      log @ concat (map (\<lambda>name. snd (GetAccountMetaForName w unm s rootDir name (Some logger)))
                      (map fst (filter snd subitems))))"
proof (induction subitems arbitrary: accounts log)
  case Nil
  show ?case by simp
next
  case (Cons item subitems)
  obtain name isDir where item: "item = (name, isDir)" by (cases item)
  show ?case
  proof (cases isDir)
    case False
    with item Cons.IH show ?thesis by simp
  next
    case True
    obtain r l where g: "GetAccountMetaForName w unm s rootDir name (Some logger) = (r, l)"
      by (cases "GetAccountMetaForName w unm s rootDir name (Some logger)")
    show ?thesis
      using item True g Cons.IH by (cases r) simp_all
  qed
qed



lemma GetAccountMetaForName_logger:
  "fst (GetAccountMetaForName w unm s rootDir name logger) =
   fst (GetAccountMetaForName w unm s rootDir name logger')"
  by (simp add: GetAccountMetaForName_def Let_def split: sum.splits)

lemma GetAccountMetaForName_id:
  "fst (GetAccountMetaForName w unm s rootDir name logger) = Inr account
     \<Longrightarrow> AccountID account = name"
  by (auto simp: GetAccountMetaForName_def Let_def split: sum.splits if_splits)

text \<open>
  Claim C6. For a root directory that is there and can be listed, \<open>ListAccounts\<close>
  succeeds with one entry per immediate subdirectory, in the order of the listing: the
  metadata loaded for the subdirectory, or, when the load fails, a placeholder holding
  only the directory name as \<open>AccountID\<close> and the text of the load error as \<open>Error\<close>.
  Every entry has the name of its directory as \<open>AccountID\<close>.
\<close>

theorem ListAccounts_resilient:
  assumes "Stat w s rootDir = None" and "ReadDir w s rootDir = Inr subitems"
  shows "fst (ListAccounts w unm Error_string s rootDir logger) =
           Inr (map (\<lambda>name.
                      case fst (GetAccountMetaForName w unm s rootDir name logger) of
                        Inl err \<Rightarrow> \<lparr>AccountID = name, Opaque = [], Error = Error_string err\<rparr>
                      | Inr account \<Rightarrow> account)
                  (map fst (filter snd subitems)))
         \<and> (\<forall>accounts. fst (ListAccounts w unm Error_string s rootDir logger) = Inr accounts
               \<longrightarrow> map AccountID accounts = map fst (filter snd subitems))"
proof -
  let ?l = "case logger of None \<Rightarrow> NopLogger | Some l \<Rightarrow> l"
  let ?entry = "\<lambda>lg name.
                  case fst (GetAccountMetaForName w unm s rootDir name lg) of
                    Inl err \<Rightarrow> \<lparr>AccountID = name, Opaque = [], Error = Error_string err\<rparr>
                  | Inr account \<Rightarrow> account"
  have same: "?entry (Some ?l) = ?entry logger"
    using GetAccountMetaForName_logger [of w unm s rootDir _ "Some ?l" logger] by simp
  have "fst (ListAccounts w unm Error_string s rootDir logger) =
          Inr (map (?entry (Some ?l)) (map fst (filter snd subitems)))"
    using assms by (simp add: ListAccounts_def ListAccounts_loop_eq Let_def)
  then have res: "fst (ListAccounts w unm Error_string s rootDir logger) =
          Inr (map (?entry logger) (map fst (filter snd subitems)))"
    by (simp only: same)
  have "AccountID (?entry logger name) = name" for name
    by (cases "fst (GetAccountMetaForName w unm s rootDir name logger)")
       (simp_all add: GetAccountMetaForName_id)
  then have ids: "map AccountID (map (?entry logger) names) = names" for names
    by (induction names) simp_all
  show ?thesis
  proof (intro conjI allI impI)
    show "fst (ListAccounts w unm Error_string s rootDir logger) =
            Inr (map (?entry logger) (map fst (filter snd subitems)))"
      by (rule res)
  next
    fix accounts
    assume "fst (ListAccounts w unm Error_string s rootDir logger) = Inr accounts"
    with res have "accounts = map (?entry logger) (map fst (filter snd subitems))"
      by simp
    then show "map AccountID accounts = map fst (filter snd subitems)"
      by (simp only: ids)
  qed
qed

text \<open>
  Three account directories and a plain file under the root; the metadata of the
  second account does not decode.
\<close>

theorem ListAccounts_resilient_witness:
  "fst (ListAccounts sim_world sim_Unmarshal sim_Error_string
          [(''root'', Dir), (''root/a'', Dir), (''root/a/account_meta'', File [1, 5]),
           (''root/b'', Dir), (''root/b/account_meta'', File [0xFF]),
           (''root/notes'', File [7]),
           (''root/c'', Dir), (''root/c/account_meta'', File [2])] ''root'' None)
   = Inr [\<lparr>AccountID = ''a'', Opaque = [5], Error = []\<rparr>,
          \<lparr>AccountID = ''b'', Opaque = [],
            Error = ''wrapped: unable to unmarshall account metadata: illegal tag''\<rparr>,
          \<lparr>AccountID = ''c'', Opaque = [], Error = []\<rparr>]"
proof -
  let ?s = "[(''root'', Dir), (''root/a'', Dir), (''root/a/account_meta'', File [1, 5 :: byte]),
           (''root/b'', Dir), (''root/b/account_meta'', File [0xFF]),
           (''root/notes'', File [7]),
           (''root/c'', Dir), (''root/c/account_meta'', File [2])]"
  have st: "Stat sim_world ?s ''root'' = None"
    by (simp add: sim_world_def)
  have rd: "ReadDir sim_world ?s ''root'' =
              Inr [(''a'', True), (''b'', True), (''notes'', False), (''c'', True)]"
    by code_simp
  have g: "fst (GetAccountMetaForName sim_world sim_Unmarshal ?s ''root'' ''a'' None)
             = Inr \<lparr>AccountID = ''a'', Opaque = [5], Error = []\<rparr>"
      "fst (GetAccountMetaForName sim_world sim_Unmarshal ?s ''root'' ''b'' None)
             = Inl (Wrap ErrDeserialization
                     (Errorf ''unable to unmarshall account metadata: ''
                        (ExternalError ''illegal tag'')))"
      "fst (GetAccountMetaForName sim_world sim_Unmarshal ?s ''root'' ''c'' None)
             = Inr \<lparr>AccountID = ''c'', Opaque = [], Error = []\<rparr>"
    by (simp_all add: GetAccountMetaForName_def sim_world_def sim_join_def sim_Unmarshal_def
          AccountMetafileName_def)
  show ?thesis
    using ListAccounts_resilient [OF st rd, of sim_Unmarshal sim_Error_string None]
    by (simp add: g)
qed

subsection \<open>The device push key\<close>

text \<open>
  Claim C2, as stated, at a key file that does not exist: the call with
  \<open>createIfMissing = false\<close> fails, but the error is not of the kind \<open>NotFound\<close>. It has
  the code \<open>ErrPushUnableToDecrypt\<close> and wraps a fresh message, not the not-exist error.
\<close>

theorem missing_key_error_is_not_NotFound:
  "\<not> (\<exists>e. fst (GetDevicePushKeyForPath sim_world (Inr (replicate 32 1, replicate 32 2))
                  [(''acc'', Dir)] ''acc/push.key'' False) = Inl e \<and> is_NotFound e)"
  by (simp add: GetDevicePushKeyForPath_def sim_world_def)

text \<open>
  Claim C2, amended. Whenever the key file cannot be read, and so for every path whose
  key file does not exist, the call with \<open>createIfMissing = false\<close> fails with the error
  \<open>ErrPushUnableToDecrypt\<close> wrapping "unable to get device push key", and the world is
  left as it was: no file is created.
\<close>

theorem GetDevicePushKeyForPath_missing_no_create:
  assumes "ReadFile w s filePath = Inl err"
  shows "GetDevicePushKeyForPath w GenerateKey s filePath False =
           (Inl (Wrap ErrPushUnableToDecrypt (ErrorString ''unable to get device push key'')), s)"
  using assms by (simp add: GetDevicePushKeyForPath_def)

theorem GetDevicePushKeyForPath_missing_no_create_witness:
  "ReadFile sim_world [(''acc'', Dir)] ''acc/push.key'' = Inl ErrNotExist
   \<and> GetDevicePushKeyForPath sim_world (Inr (replicate 32 1, replicate 32 2)) [(''acc'', Dir)]
        ''acc/push.key'' False
     = (Inl (Wrap ErrPushUnableToDecrypt (ErrorString ''unable to get device push key'')),
        [(''acc'', Dir)])"
proof -
  have r: "ReadFile sim_world [(''acc'', Dir)] ''acc/push.key'' = Inl ErrNotExist"
    by (simp add: sim_world_def)
  show ?thesis
    using r GetDevicePushKeyForPath_missing_no_create [OF r] by simp
qed

text \<open>The two loops over the key bytes, characterised.\<close>

declare fill_contents.simps [simp del]
declare split_contents.simps [simp del]

lemma fill_contents_length: "length (fill_contents pk sk i c) = length c"
proof (induction pk sk i c rule: fill_contents.induct)
  case (1 pk sk i contents)
  then show ?case
    by (subst fill_contents.simps) simp
qed

lemma fill_contents_nth:
  assumes "j < length c" and "length c = KeySize * 2"
  shows "fill_contents pk sk i c ! j =
           (if i \<le> j \<and> j < KeySize then pk ! j
            else if KeySize + i \<le> j then sk ! (j - KeySize)
            else c ! j)"
  using assms
proof (induction pk sk i c rule: fill_contents.induct)
  case (1 pk sk i contents)
  show ?case
  proof (cases "i < KeySize")
    case True
    let ?c = "(contents[i := pk ! i])[i + KeySize := sk ! i]"
    have "fill_contents pk sk i contents ! j = fill_contents pk sk (i + 1) ?c ! j"
      by (subst fill_contents.simps) (simp add: True)
    also have "\<dots> = (if i + 1 \<le> j \<and> j < KeySize then pk ! j
                      else if KeySize + (i + 1) \<le> j then sk ! (j - KeySize)
                      else ?c ! j)"
      using "1.IH" [OF True] "1.prems" by simp
    also have "\<dots> = (if i \<le> j \<and> j < KeySize then pk ! j
                      else if KeySize + i \<le> j then sk ! (j - KeySize)
                      else contents ! j)"
      using True "1.prems" by (cases "j = KeySize + i") (auto simp: nth_list_update)
    finally show ?thesis .
  next
    case False
    then show ?thesis
      using "1.prems" by (subst fill_contents.simps) auto
  qed
qed

lemma fill_contents_eq:
  assumes "length pk = KeySize" and "length sk = KeySize"
  shows "fill_contents pk sk 0 (replicate (KeySize * 2) 0) = pk @ sk"
proof (rule nth_equalityI)
  show "length (fill_contents pk sk 0 (replicate (KeySize * 2) 0)) = length (pk @ sk)"
    using assms by (simp add: fill_contents_length)
next
  fix j
  assume "j < length (fill_contents pk sk 0 (replicate (KeySize * 2) 0))"
  then have j: "j < KeySize * 2"
    by (simp add: fill_contents_length)
  then show "fill_contents pk sk 0 (replicate (KeySize * 2) 0) ! j = (pk @ sk) ! j"
    using assms by (simp add: fill_contents_nth nth_append)
qed

lemma split_contents_take:
  assumes "KeySize * 2 \<le> length contents" and "i \<le> KeySize"
    and "length pkVal = KeySize" and "length skVal = KeySize"
  shows "split_contents contents i pkVal skVal =
           Inr (take i pkVal @ take (KeySize - i) (drop i contents),
                take i skVal @ take (KeySize - i) (drop (i + KeySize) contents))"
  using assms
proof (induction contents i pkVal skVal rule: split_contents.induct)
  case (1 contents i pkVal skVal)
  show ?case
  proof (cases "i < KeySize")
    case True
    have ic: "i < length contents" and ikc: "i + KeySize < length contents"
      using True "1.prems" by auto
    have "split_contents contents i pkVal skVal =
            split_contents contents (i + 1) (pkVal[i := contents ! i])
              (skVal[i := contents ! (i + KeySize)])"
      by (subst split_contents.simps) (simp add: True ic ikc)
    also have "\<dots> = Inr (take (i + 1) (pkVal[i := contents ! i])
                            @ take (KeySize - (i + 1)) (drop (i + 1) contents),
                          take (i + 1) (skVal[i := contents ! (i + KeySize)])
                            @ take (KeySize - (i + 1)) (drop (i + 1 + KeySize) contents))"
      using "1.IH" [OF True ic ikc] "1.prems" True by simp
    also have "take (i + 1) (pkVal[i := contents ! i]) = take i pkVal @ [contents ! i]"
      using True "1.prems" by (simp add: take_Suc_conv_app_nth)
    also have "take (i + 1) (skVal[i := contents ! (i + KeySize)])
                 = take i skVal @ [contents ! (i + KeySize)]"
      using True "1.prems" by (simp add: take_Suc_conv_app_nth)
    also have "(take i pkVal @ [contents ! i]) @ take (KeySize - (i + 1)) (drop (i + 1) contents)
                 = take i pkVal @ take (KeySize - i) (drop i contents)"
    proof -
      have "drop i contents = contents ! i # drop (i + 1) contents"
        using ic by (simp add: Cons_nth_drop_Suc)
      moreover have "KeySize - i = Suc (KeySize - (i + 1))"
        using True by simp
      ultimately show ?thesis by simp
    qed
    also have "(take i skVal @ [contents ! (i + KeySize)])
                   @ take (KeySize - (i + 1)) (drop (i + 1 + KeySize) contents)
                 = take i skVal @ take (KeySize - i) (drop (i + KeySize) contents)"
    proof -
      have "drop (i + KeySize) contents
              = contents ! (i + KeySize) # drop (Suc (i + KeySize)) contents"
        using ikc by (simp add: Cons_nth_drop_Suc)
      moreover have "KeySize - i = Suc (KeySize - (i + 1))"
        using True by simp
      ultimately show ?thesis by simp
    qed
    finally show ?thesis .
  next
    case False
    with "1.prems" have "i = KeySize" by simp
    then show ?thesis
      using "1.prems" by (subst split_contents.simps) simp
  qed
qed

lemma split_contents_ok:
  assumes "KeySize * 2 \<le> length contents"
  shows "split_contents contents 0 (replicate KeySize 0) (replicate KeySize 0) =
           Inr (take KeySize contents, take KeySize (drop KeySize contents))"
  using split_contents_take [OF assms, of 0 "replicate KeySize 0" "replicate KeySize 0"]
  by simp

lemma split_contents_short:
  assumes "length contents < KeySize * 2" and "i < KeySize"
  shows "\<exists>j. length contents \<le> j \<and> j < KeySize * 2 \<and>
             split_contents contents i pkVal skVal = Inl (IndexOutOfRange j (length contents))"
  using assms
proof (induction contents i pkVal skVal rule: split_contents.induct)
  case (1 contents i pkVal skVal)
  show ?case
  proof (cases "i < length contents \<and> i + KeySize < length contents")
    case True
    then have "i + 1 < KeySize"
      using "1.prems" by simp
    moreover have "split_contents contents i pkVal skVal =
            split_contents contents (i + 1) (pkVal[i := contents ! i])
              (skVal[i := contents ! (i + KeySize)])"
      using True "1.prems" by (subst split_contents.simps) simp
    ultimately show ?thesis
      using "1.IH" [of] True "1.prems" by simp
  next
    case False
    then show ?thesis
      using "1.prems" by (subst split_contents.simps) auto
  qed
qed

lemma GetDevicePushKeyForPath_reads_key:
  assumes "ReadFile w s filePath = Inr contents" and "KeySize * 2 \<le> length contents"
  shows "GetDevicePushKeyForPath w GenerateKey s filePath createIfMissing =
           (Inr (take KeySize contents, take KeySize (drop KeySize contents)), s)"
  using assms by (simp add: GetDevicePushKeyForPath_def split_contents_ok)

text \<open>
  Claim C3 says that an existing key file shorter than \<open>2 * KeySize\<close> bytes gives a read
  error. The code has no length test: for every such file the split loop indexes the
  contents at or beyond their length, so the call panics with an index out of range
  and returns nothing. (The indices are all in range exactly from \<open>2 * KeySize\<close> bytes
  on, where \<open>GetDevicePushKeyForPath_reads_key\<close> gives the two halves.)
\<close>

theorem GetDevicePushKeyForPath_short_file_panics:
  assumes "ReadFile w s filePath = Inr contents" and "length contents < KeySize * 2"
  shows "\<exists>j. length contents \<le> j \<and>
             GetDevicePushKeyForPath w GenerateKey s filePath createIfMissing =
               (Inl (IndexOutOfRange j (length contents)), s)"
proof -
  have "0 < KeySize"
    by (simp add: KeySize_def)
  with split_contents_short [OF assms(2), of 0 "replicate KeySize 0" "replicate KeySize 0"]
  obtain j where "length contents \<le> j"
    and "split_contents contents 0 (replicate KeySize 0) (replicate KeySize 0) =
           Inl (IndexOutOfRange j (length contents))"
    by blast
  with assms(1) show ?thesis
    by (auto simp: GetDevicePushKeyForPath_def)
qed

text \<open>A key file of three bytes: the first read of the secret half, at index 32, panics.\<close>

theorem GetDevicePushKeyForPath_short_file_panics_witness:
  "ReadFile sim_world [(''acc/push.key'', File [1, 2, 3])] ''acc/push.key'' = Inr [1, 2, 3]
   \<and> length [1, 2, 3 :: byte] < KeySize * 2
   \<and> GetDevicePushKeyForPath sim_world (Inl (ExternalError ''unused''))
        [(''acc/push.key'', File [1, 2, 3])] ''acc/push.key'' False
     = (Inl (IndexOutOfRange 32 3), [(''acc/push.key'', File [1, 2, 3])])"
proof -
  have r: "ReadFile sim_world [(''acc/push.key'', File [1, 2, 3])] ''acc/push.key''
             = Inr [1, 2, 3]"
    by (simp add: sim_world_def)
  have l: "length [1, 2, 3 :: byte] < KeySize * 2"
    by (simp add: KeySize_def)
  have e: "GetDevicePushKeyForPath sim_world (Inl (ExternalError ''unused''))
             [(''acc/push.key'', File [1, 2, 3])] ''acc/push.key'' False
           = (Inl (IndexOutOfRange 32 3), [(''acc/push.key'', File [1, 2, 3])])"
    by (simp add: GetDevicePushKeyForPath_def r split_contents.simps KeySize_def)
  show ?thesis
    using r l e
      GetDevicePushKeyForPath_short_file_panics
        [OF r l, of "Inl (ExternalError ''unused'')" False]
    by simp
qed

text \<open>
  Claim C5. On a file system where a file written is the file read back, and with key
  arrays of \<open>KeySize\<close> bytes: when a call with \<open>createIfMissing = true\<close> returns a key
  pair, a second call on the same path in the world the first one left returns the same
  pair and leaves that world as it is, whatever the key generator would give it. So
  only the first call can create the file, and the second is a read.
\<close>

theorem GetDevicePushKeyForPath_idempotent:
  assumes read_after_write:
      "\<And>s p c m s'. WriteFile w s p c m = (None, s') \<Longrightarrow> ReadFile w s' p = Inr c"
    and key_arrays:
      "\<And>pk sk. GenerateKey = Inr (pk, sk) \<Longrightarrow> length pk = KeySize \<and> length sk = KeySize"
    and first: "GetDevicePushKeyForPath w GenerateKey s filePath True = (Inr (pk, sk), s1)"
  shows "GetDevicePushKeyForPath w GenerateKey' s1 filePath True = (Inr (pk, sk), s1)"
proof (cases "ReadFile w s filePath")
  case (Inr contents)
  with first have "s1 = s"
    and "split_contents contents 0 (replicate KeySize 0) (replicate KeySize 0) = Inr (pk, sk)"
    by (simp_all add: GetDevicePushKeyForPath_def)
  with Inr show ?thesis
    by (simp add: GetDevicePushKeyForPath_def)
next
  case (Inl err)
  with first obtain sa sb where gen: "GenerateKey = Inr (pk, sk)"
    and "WriteFile w sb filePath
           (fill_contents pk sk 0 (replicate (KeySize * 2) 0)) mode_0o600 = (None, s1)"
    by (auto simp: GetDevicePushKeyForPath_def Let_def
          split: if_splits prod.splits option.splits sum.splits)
  then have "ReadFile w s1 filePath = Inr (fill_contents pk sk 0 (replicate (KeySize * 2) 0))"
    by (rule_tac read_after_write)
  moreover have len: "length pk = KeySize" "length sk = KeySize"
    using key_arrays [OF gen] by simp_all
  ultimately have "ReadFile w s1 filePath = Inr (pk @ sk)"
    by (simp add: fill_contents_eq)
  moreover have "KeySize * 2 \<le> length (pk @ sk)"
    using len by simp
  ultimately show ?thesis
    using len by (simp add: GetDevicePushKeyForPath_reads_key)
qed

text \<open>The first call creates the file in an existing directory; the second reads it.\<close>

theorem GetDevicePushKeyForPath_idempotent_witness:
  "GetDevicePushKeyForPath sim_world (Inr (replicate 32 1, replicate 32 2)) [(''acc'', Dir)]
     ''acc/push.key'' True
   = (Inr (replicate 32 1, replicate 32 2),
      [(''acc/push.key'', File (replicate 32 1 @ replicate 32 2)),
       (''acc/push.key'', File []), (''acc'', Dir)])
   \<and> GetDevicePushKeyForPath sim_world (Inr (replicate 32 8, replicate 32 9))
       [(''acc/push.key'', File (replicate 32 1 @ replicate 32 2)),
        (''acc/push.key'', File []), (''acc'', Dir)]
       ''acc/push.key'' True
   = (Inr (replicate 32 1, replicate 32 2),
      [(''acc/push.key'', File (replicate 32 1 @ replicate 32 2)),
       (''acc/push.key'', File []), (''acc'', Dir)])"
proof -
  have w: "ReadFile sim_world s' p = Inr c" if "WriteFile sim_world s p c m = (None, s')"
    for s p c m s'
    using that by (auto simp: sim_world_def split: option.splits node.splits)
  have k: "length pk = KeySize \<and> length sk = KeySize"
    if "Inr (replicate 32 (1 :: byte), replicate 32 (2 :: byte)) = Inr (pk, sk)" for pk sk
    using that by (auto simp: KeySize_def)
  have f: "fill_contents (replicate 32 1) (replicate 32 2) 0 (replicate (KeySize * 2) 0)
             = replicate 32 (1 :: byte) @ replicate 32 (2 :: byte)"
    by (rule fill_contents_eq) (simp_all add: KeySize_def)
  have first: "GetDevicePushKeyForPath sim_world (Inr (replicate 32 1, replicate 32 2))
       [(''acc'', Dir)] ''acc/push.key'' True
     = (Inr (replicate 32 1, replicate 32 2),
        [(''acc/push.key'', File (replicate 32 1 @ replicate 32 2)),
         (''acc/push.key'', File []), (''acc'', Dir)])"
    by (simp add: GetDevicePushKeyForPath_def f sim_world_def)
  show ?thesis
    using first
      GetDevicePushKeyForPath_idempotent
        [where GenerateKey' = "Inr (replicate 32 8, replicate 32 9)", OF w k first]
    by simp
qed

subsection \<open>The relational databases\<close>

text \<open>
  Claim C10. \<open>GetReplicationDBForPath\<close> opens the replication database without a key,
  for every directory and logger: the connection string it opens is the file path
  joined from the directory and the replication file name, as it is, or the in-memory
  URL; the key parameters are never appended.
\<close>

theorem GetReplicationDBForPath_no_key:
  "GetReplicationDBForPath w UnixNano s dir logger =
     (let dbPath = path_Join w [dir, ReplicationDatabaseFilename];
          sqliteConn =
            (if dir = InMemoryDir \<or> dbPath = InMemoryDir
             then ''file:memdb'' @ Sprintf_d (sint UnixNano) @ ''?mode=memory&cache=shared''
             else dbPath)
      in (case gorm_Open w s sqliteConn
                 \<lparr>Logger = (logger, ''gorm''), DisableForeignKeyConstraintWhenMigrating = True\<rparr> of
            (Some err, s1) \<Rightarrow> (Inl (Wrap TODO err), s1)
          | (None, s1) \<Rightarrow> (Inr (GormDB sqliteConn), s1)))"
  by (simp add: GetReplicationDBForPath_def GetGormDBForPath_def gorm_sqliteConn_def Let_def)

text \<open>Decimal rendering is injective: on the digits, on naturals, and with the sign.\<close>

declare decimal.simps [simp del]

lemma decimal_digit_inj:
  assumes "a < 10" and "b < 10" and "decimal_digit a = decimal_digit b"
  shows "a = b"
proof -
  have "distinct ''0123456789''" by simp
  moreover have "a < length ''0123456789''" "b < length ''0123456789''"
    using assms by simp_all
  ultimately show ?thesis
    using assms(3) unfolding decimal_digit_def by (simp only: nth_eq_iff_index_eq)
qed

lemma decimal_digit_not_minus: "n < 10 \<Longrightarrow> decimal_digit n \<noteq> CHR ''-''"
proof -
  assume "n < 10"
  then have "decimal_digit n \<in> set ''0123456789''"
    unfolding decimal_digit_def by (intro nth_mem) simp
  then show ?thesis by auto
qed

lemma decimal_not_Nil: "decimal n \<noteq> []"
  by (subst decimal.simps) simp

lemma length_decimal_ge_2: "10 \<le> n \<Longrightarrow> 2 \<le> length (decimal n)"
proof -
  assume "10 \<le> n"
  then have "decimal n = decimal (n div 10) @ [decimal_digit (n mod 10)]"
    by (subst decimal.simps) simp
  moreover have "1 \<le> length (decimal (n div 10))"
    using decimal_not_Nil [of "n div 10"] by (cases "decimal (n div 10)") simp_all
  ultimately show ?thesis by simp
qed

lemma decimal_inj: "decimal m = decimal n \<Longrightarrow> m = n"
proof (induction m arbitrary: n rule: decimal.induct)
  case (1 m)
  show ?case
  proof (cases "m < 10")
    case m: True
    then have dm: "decimal m = [decimal_digit m]"
      by (subst decimal.simps) simp
    show ?thesis
    proof (cases "n < 10")
      case True
      then have "decimal n = [decimal_digit n]"
        by (subst decimal.simps) simp
      with dm "1.prems" m True show ?thesis
        by (simp add: decimal_digit_inj)
    next
      case False
      then have "2 \<le> length (decimal n)"
        by (simp add: length_decimal_ge_2)
      with dm "1.prems" show ?thesis by simp
    qed
  next
    case m: False
    then have dm: "decimal m = decimal (m div 10) @ [decimal_digit (m mod 10)]"
      by (subst decimal.simps) simp
    show ?thesis
    proof (cases "n < 10")
      case True
      then have "decimal n = [decimal_digit n]"
        by (subst decimal.simps) simp
      moreover have "2 \<le> length (decimal m)"
        using m by (simp add: length_decimal_ge_2)
      ultimately show ?thesis
        using "1.prems" by simp
    next
      case False
      then have "decimal n = decimal (n div 10) @ [decimal_digit (n mod 10)]"
        by (subst decimal.simps) simp
      with dm "1.prems" have "decimal (m div 10) = decimal (n div 10)"
        and "decimal_digit (m mod 10) = decimal_digit (n mod 10)"
        by simp_all
      then have "m div 10 = n div 10" and "m mod 10 = n mod 10"
        using "1.IH" [OF m] by (simp_all add: decimal_digit_inj)
      then show ?thesis
        by (metis div_mult_mod_eq)
    qed
  qed
qed

lemma hd_decimal: "hd (decimal n) \<noteq> CHR ''-''"
proof (induction n rule: decimal.induct)
  case (1 n)
  show ?case
  proof (cases "n < 10")
    case True
    then show ?thesis
      by (subst decimal.simps) (simp add: decimal_digit_not_minus)
  next
    case False
    with "1.IH" show ?thesis
      by (subst decimal.simps) (simp add: decimal_not_Nil)
  qed
qed

lemma Sprintf_d_inj:
  assumes "Sprintf_d i = Sprintf_d j"
  shows "i = j"
proof -
  have neq: "CHR ''-'' # decimal m \<noteq> decimal n" for m n
    using hd_decimal [of n] by (cases "decimal n") auto
  show ?thesis
  proof (cases "i < 0")
    case i: True
    show ?thesis
    proof (cases "j < 0")
      case True
      with i assms have "nat (- i) = nat (- j)"
        by (simp add: Sprintf_d_def decimal_inj)
      with i True show ?thesis by simp
    next
      case False
      with i assms neq show ?thesis
        by (simp add: Sprintf_d_def)
    qed
  next
    case i: False
    show ?thesis
    proof (cases "j < 0")
      case True
      with i assms neq [of "nat (- j)" "nat i"] show ?thesis
        by (simp add: Sprintf_d_def)
    next
      case False
      with i assms have "nat i = nat j"
        by (simp add: Sprintf_d_def decimal_inj)
      with i False show ?thesis by simp
    qed
  qed
qed

text \<open>
  Claim C8, as stated, at two opens that read the same value from the clock, here the
  in-memory messenger database and the in-memory replication database: both are opened on
  the same connection string, a shared-cache memory URL, so they are the same database.
\<close>

theorem in_memory_opens_at_one_clock_reading_coincide:
  "GetMessengerDBForPath sim_world 1700000000123456789 [] InMemoryDir [1, 2] LiveLogger
     = (Inr (GormDB ''file:memdb1700000000123456789?mode=memory&cache=shared''), [])
   \<and> GetReplicationDBForPath sim_world 1700000000123456789 [] InMemoryDir NopLogger
     = (Inr (GormDB ''file:memdb1700000000123456789?mode=memory&cache=shared''), [])"
proof -
  have "Sprintf_d (sint (1700000000123456789 :: 64 word)) = ''1700000000123456789''"
    by (simp add: Sprintf_d_def decimal.simps decimal_digit_def)
  then show ?thesis
    by (simp add: GetMessengerDBForPath_def GetReplicationDBForPath_def GetGormDBForPath_def
          gorm_sqliteConn_def sim_world_def)
qed

text \<open>
  Claim C8, amended. The connection strings that two calls of \<open>GetGormDBForPath\<close> build
  for the in-memory sentinel are distinct exactly when the two calls read different
  values of \<open>time.Now().UnixNano()\<close>, whatever their keys.
\<close>

theorem in_memory_conn_distinct_iff_clock:
  "gorm_sqliteConn t1 InMemoryDir key1 = gorm_sqliteConn t2 InMemoryDir key2 \<longleftrightarrow> t1 = t2"
proof
  assume "gorm_sqliteConn t1 InMemoryDir key1 = gorm_sqliteConn t2 InMemoryDir key2"
  then have "Sprintf_d (sint t1) = Sprintf_d (sint t2)"
    by (simp add: gorm_sqliteConn_def)
  then have "sint t1 = sint t2"
    by (rule Sprintf_d_inj)
  then show "t1 = t2"
    by (rule signed_word_eqI)
next
  assume "t1 = t2"
  then show "gorm_sqliteConn t1 InMemoryDir key1 = gorm_sqliteConn t2 InMemoryDir key2"
    by (simp add: gorm_sqliteConn_def)
qed

end
